theory Spec2Isabelle
  imports Main "HOL-Library.Word"
begin

unbundle bit_operations_syntax

section \<open>The trace decoder of decoder-algorithm-public.c\<close>

subsection \<open>Data\<close>

text \<open>
  Modelled from the spec: the header decoder-algorithm-public.h (types, TE_SLOT_NUMBER,
  TE_MAX_CALL_DEPTH, the qual_status codes) and the disassembler's headers are not
  among the sources. Addresses are 64-bit words, the branch map is a 32-bit word, the
  immediate of a decoded instruction is a signed 32-bit word that is sign-extended when
  it is added to an address. Counters that the code only increments, or decrements
  under a guard, are natural numbers.
\<close>

type_synonym te_address_t = "64 word"
type_synonym rv_inst = "64 word"

datatype rv_isa = rv32 | rv64 | rv128

text \<open>The opcodes the decoder tests for; every other opcode is \<open>rv_op_other\<close>.\<close>

datatype rv_op =
    rv_op_illegal
  | rv_op_lui | rv_op_auipc | rv_op_jal | rv_op_jalr
  | rv_op_beq | rv_op_bne | rv_op_blt | rv_op_bge | rv_op_bltu | rv_op_bgeu
  | rv_op_uret | rv_op_sret | rv_op_mret | rv_op_dret
  | rv_op_c_jal | rv_op_c_lui | rv_op_c_j | rv_op_c_beqz | rv_op_c_bnez
  | rv_op_c_jr | rv_op_c_jalr
  | rv_op_other nat

record rv_decode =
  pc :: te_address_t
  op :: rv_op
  rd :: nat
  rs1 :: nat
  imm :: "32 word"

record te_decoded_instruction_t =
  decode :: rv_decode
  instr_length :: nat
  line :: string

record te_inst_t =
  format :: nat
  subformat :: nat
  address :: te_address_t
  branch :: bool
  branches :: nat
  branch_map :: "32 word"
  updiscon :: bool

datatype qual_status_t =
    QUAL_STATUS_NO_CHANGE
  | QUAL_STATUS_ENDED_REP
  | QUAL_STATUS_TRACE_LOST
  | QUAL_STATUS_ENDED_NTR

record te_support_t =
  support_type :: nat
  qual_status :: qual_status_t

text \<open>
  The decoder state. \<open>retired\<close> is not a field of the C structure: it records the calls
  of the host callback te_advance_decoded_pc (old pc, new pc, instruction), oldest first.
  \<open>return_stack\<close> and \<open>decoded_cache\<close> are C arrays, read and written by index.
\<close>

record te_decoder_state_t =
  isa :: rv_isa
  pc :: te_address_t
  last_pc :: te_address_t
  address :: te_address_t
  branches :: nat
  branch_map :: "32 word"
  stop_at_last_branch :: bool
  inferred_address :: bool
  start_of_trace :: bool
  call_counter :: nat
  return_stack :: "nat \<Rightarrow> te_address_t"
  instruction_count :: nat
  decoded_cache :: "nat \<Rightarrow> te_decoded_instruction_t"
  num_gets :: nat
  num_same :: nat
  num_hits :: nat
  retired :: "(te_address_t \<times> te_address_t \<times> te_decoded_instruction_t) list"

text \<open>
  The host: the external functions te_get_instruction (length and raw bits of the
  instruction at an address) and disasm_inst_adv (its decoding and disassembly line),
  and the macro TE_SLOT_NUMBER. They stand for \<open>user_data\<close> and the linked libraries.
\<close>

record host =
  te_get_instruction :: "te_address_t \<Rightarrow> nat \<times> rv_inst"
  disasm_inst_adv :: "rv_isa \<Rightarrow> te_address_t \<Rightarrow> rv_inst \<Rightarrow> rv_decode \<times> string"
  TE_SLOT_NUMBER :: "te_address_t \<Rightarrow> nat"

text \<open>
  \<open>unrecoverable_error\<close> prints its message and calls exit; a failed \<open>assert\<close> aborts.
  Both end the run and are results of the model.
\<close>

datatype te_error = unrecoverable_error string | assertion_failed

definition and_then :: "te_error + 'a \<Rightarrow> ('a \<Rightarrow> te_error + 'b) \<Rightarrow> te_error + 'b" where
  "and_then m f = (case m of Inl e \<Rightarrow> Inl e | Inr x \<Rightarrow> f x)"

definition SENTINEL_BAD_ADDRESS :: te_address_t where
  "SENTINEL_BAD_ADDRESS = 0xbadadd"

definition MSB :: "te_address_t \<Rightarrow> te_address_t" where
  "MSB x = drop_bit 63 x AND 1"

definition call_counter_width :: nat where
  "call_counter_width = 7"

definition iaddress_lsb :: nat where
  "iaddress_lsb = 1"

definition full_address :: bool where
  "full_address = False"

definition implicit_return :: bool where
  "implicit_return = False"

text \<open>
  Modelled from the spec: TE_MAX_CALL_DEPTH is the host-defined bound of the return
  stack; the source's comment gives 512 calls for call_counter_width = 7.
\<close>

definition TE_MAX_CALL_DEPTH :: nat where
  "TE_MAX_CALL_DEPTH = 512"

text \<open>A local \<open>te_decoded_instruction_t instr = { .decode.pc = SENTINEL_BAD_ADDRESS }\<close>.\<close>

definition zero_instr :: te_decoded_instruction_t where
  "zero_instr = \<lparr>decode = \<lparr>rv_decode.pc = 0, op = rv_op_illegal, rd = 0, rs1 = 0, imm = 0\<rparr>,
     instr_length = 0, line = []\<rparr>"

definition sentinel_instr :: te_decoded_instruction_t where
  "sentinel_instr = zero_instr\<lparr>decode := (decode zero_instr)\<lparr>rv_decode.pc := SENTINEL_BAD_ADDRESS\<rparr>\<rparr>"

subsection \<open>Instruction oracle\<close>

definition get_instr ::
  "host \<Rightarrow> te_decoder_state_t \<Rightarrow> te_address_t \<Rightarrow> te_decoded_instruction_t
     \<Rightarrow> te_error + (te_decoder_state_t \<times> te_decoded_instruction_t)" where
  "get_instr H d addr instr =
     (let slot = TE_SLOT_NUMBER H addr in
      if SENTINEL_BAD_ADDRESS = addr then Inl assertion_failed
      else
        let d1 = d\<lparr>num_gets := num_gets d + 1\<rparr> in
        if rv_decode.pc (decode instr) = addr
        then Inr (d1\<lparr>num_same := num_same d1 + 1\<rparr>, instr)
        else if rv_decode.pc (decode (decoded_cache d1 slot)) = addr
        then Inr (d1\<lparr>num_hits := num_hits d1 + 1\<rparr>, decoded_cache d1 slot)
        else
          let (len, instruction) = te_get_instruction H addr in
          if \<not> (4 = len \<or> 2 = len) then Inl assertion_failed
          else
            let (dec, ln) = disasm_inst_adv H (isa d1) addr instruction;
                instr' = \<lparr>decode = dec, instr_length = len, line = ln\<rparr>
            in Inr (d1\<lparr>decoded_cache := (decoded_cache d1)(slot := instr')\<rparr>, instr'))"

definition instruction_size :: "te_decoded_instruction_t \<Rightarrow> nat" where
  "instruction_size instr = instr_length instr"

definition disseminate_pc :: "host \<Rightarrow> te_decoder_state_t \<Rightarrow> te_error + te_decoder_state_t" where
  "disseminate_pc H d =
     (if SENTINEL_BAD_ADDRESS = pc d then Inl assertion_failed
      else if last_pc d = pc d then Inl assertion_failed
      else if instruction_count d \<noteq> 0 \<and> SENTINEL_BAD_ADDRESS = last_pc d then Inl assertion_failed
      else if instruction_count d = 0 \<and> SENTINEL_BAD_ADDRESS \<noteq> last_pc d then Inl assertion_failed
      else
        and_then (get_instr H d (pc d) sentinel_instr) (\<lambda>(d1, instr).
          Inr (d1\<lparr>retired := retired d1 @ [(last_pc d1, pc d1, instr)],
                  instruction_count := instruction_count d1 + 1\<rparr>)))"

subsection \<open>Classifier\<close>

definition is_branch :: "te_decoded_instruction_t \<Rightarrow> bool" where
  "is_branch instr =
     (op (decode instr) = rv_op_beq \<or> op (decode instr) = rv_op_bne \<or>
      op (decode instr) = rv_op_blt \<or> op (decode instr) = rv_op_bge \<or>
      op (decode instr) = rv_op_bltu \<or> op (decode instr) = rv_op_bgeu \<or>
      op (decode instr) = rv_op_c_beqz \<or> op (decode instr) = rv_op_c_bnez)"

definition is_taken_branch ::
  "te_decoder_state_t \<Rightarrow> te_decoded_instruction_t \<Rightarrow> te_error + (te_decoder_state_t \<times> bool)" where
  "is_taken_branch d instr =
     (if \<not> is_branch instr then Inr (d, False)
      else if 0 = branches d
      then Inl (unrecoverable_error ''cannot resolve branch (branch-map depleted)!'')
      else
        let taken = (branch_map d AND 1 = 0) in
        Inr (d\<lparr>branches := branches d - 1, branch_map := drop_bit 1 (branch_map d)\<rparr>, taken))"

definition is_inferrable_jump :: "te_decoded_instruction_t \<Rightarrow> bool" where
  "is_inferrable_jump instr =
     (op (decode instr) = rv_op_jal \<or> op (decode instr) = rv_op_c_jal \<or>
      op (decode instr) = rv_op_c_j \<or>
      (op (decode instr) = rv_op_jalr \<and> 0 = rs1 (decode instr)))"

definition is_uninferrable_jump :: "te_decoded_instruction_t \<Rightarrow> bool" where
  "is_uninferrable_jump instr =
     ((op (decode instr) = rv_op_jalr \<and> 0 \<noteq> rs1 (decode instr)) \<or>
      op (decode instr) = rv_op_c_jalr \<or> op (decode instr) = rv_op_c_jr)"

definition is_uninferrable_discon :: "te_decoded_instruction_t \<Rightarrow> bool" where
  "is_uninferrable_discon instr =
     (is_uninferrable_jump instr \<or>
      op (decode instr) = rv_op_uret \<or> op (decode instr) = rv_op_sret \<or>
      op (decode instr) = rv_op_mret \<or> op (decode instr) = rv_op_dret)"

definition is_sequential_jump ::
  "host \<Rightarrow> te_decoder_state_t \<Rightarrow> te_decoded_instruction_t \<Rightarrow> te_address_t
     \<Rightarrow> te_error + (te_decoder_state_t \<times> bool)" where
  "is_sequential_jump H d instr prev_addr =
     (if \<not> is_uninferrable_jump instr then Inr (d, False)
      else
        and_then (get_instr H d prev_addr sentinel_instr) (\<lambda>(d1, prev_instr).
          if op (decode prev_instr) = rv_op_auipc \<or> op (decode prev_instr) = rv_op_lui \<or>
             op (decode prev_instr) = rv_op_c_lui
          then Inr (d1, rs1 (decode instr) = rd (decode prev_instr))
          else Inr (d1, False)))"

definition sequential_jump_target ::
  "host \<Rightarrow> te_decoder_state_t \<Rightarrow> te_address_t \<Rightarrow> te_address_t
     \<Rightarrow> te_error + (te_decoder_state_t \<times> te_address_t)" where
  "sequential_jump_target H d addr prev_addr =
     and_then (get_instr H d addr sentinel_instr) (\<lambda>(d1, instr).
     and_then (get_instr H d1 prev_addr sentinel_instr) (\<lambda>(d2, prev_instr).
       let target0 = (if op (decode prev_instr) = rv_op_auipc then prev_addr else 0);
           target1 = target0 + scast (imm (decode prev_instr));
           target2 = (if op (decode instr) = rv_op_jalr
                      then target1 + scast (imm (decode instr)) else target1)
       in Inr (d2, target2)))"

definition is_call :: "te_decoded_instruction_t \<Rightarrow> bool" where
  "is_call instr =
     ((op (decode instr) = rv_op_jalr \<and> 1 = rd (decode instr)) \<or>
      op (decode instr) = rv_op_c_jalr \<or>
      (op (decode instr) = rv_op_jal \<and> 1 = rd (decode instr)) \<or>
      op (decode instr) = rv_op_c_jal)"

definition is_implicit_return :: "te_decoder_state_t \<Rightarrow> te_decoded_instruction_t \<Rightarrow> bool" where
  "is_implicit_return d instr =
     (if \<not> implicit_return then False
      else if (op (decode instr) = rv_op_jalr \<and> 1 = rs1 (decode instr) \<and> 0 = rd (decode instr)) \<or>
              (op (decode instr) = rv_op_c_jr \<and> 1 = rs1 (decode instr))
      then call_counter d > 0
      else False)"

subsection \<open>Return stack\<close>

text \<open>The loop \<open>for (i = 0; i < call_counter; i++) return_stack[i] = return_stack[i+1]\<close>.\<close>

function shift_down :: "nat \<Rightarrow> nat \<Rightarrow> (nat \<Rightarrow> te_address_t) \<Rightarrow> (nat \<Rightarrow> te_address_t)" where
  "shift_down i n rs = (if i < n then shift_down (Suc i) n (rs(i := rs (Suc i))) else rs)"
  by pat_completeness auto
termination
  by (relation "measure (\<lambda>(i, n, rs). n - i)") auto

declare shift_down.simps [simp del]

definition push_return_stack ::
  "host \<Rightarrow> te_decoder_state_t \<Rightarrow> te_address_t \<Rightarrow> te_error + te_decoder_state_t" where
  "push_return_stack H d addr =
     (let call_counter_max = (2::nat) ^ (call_counter_width + 2) in
      if \<not> call_counter d \<le> call_counter_max then Inl assertion_failed
      else if \<not> call_counter_max \<le> TE_MAX_CALL_DEPTH then Inl assertion_failed
      else
        let d1 = (if call_counter_max = call_counter d
                  then d\<lparr>call_counter := call_counter d - 1,
                         return_stack := shift_down 0 (call_counter d - 1) (return_stack d)\<rparr>
                  else d)
        in and_then (get_instr H d1 addr sentinel_instr) (\<lambda>(d2, instr).
             let link = addr + of_nat (instruction_size instr) in
             Inr (d2\<lparr>return_stack := (return_stack d2)(call_counter d2 := link),
                     call_counter := call_counter d2 + 1\<rparr>)))"

text \<open>
  \<open>call_counter\<close> is a size_t: the decrement wraps around at 0. The array is read at
  index \<open>call_counter\<close>, before the decrement.
\<close>

definition pop_return_stack :: "te_decoder_state_t \<Rightarrow> te_address_t \<times> te_decoder_state_t" where
  "pop_return_stack d =
     (let link = return_stack d (call_counter d) in
      (link, d\<lparr>call_counter := (call_counter d + 2 ^ 64 - 1) mod 2 ^ 64\<rparr>))"

subsection \<open>One step of the walk\<close>

definition next_pc ::
  "host \<Rightarrow> te_decoder_state_t \<Rightarrow> te_address_t \<Rightarrow> te_error + te_decoder_state_t" where
  "next_pc H d addr =
     (let this_pc = pc d in
      and_then (get_instr H d (pc d) sentinel_instr) (\<lambda>(d1, instr).
      and_then
        (if is_inferrable_jump instr
         then Inr (d1\<lparr>pc := pc d1 + scast (imm (decode instr))\<rparr>)
         else
           and_then (is_sequential_jump H d1 instr (last_pc d1)) (\<lambda>(d2, seq).
             if seq
             then and_then (sequential_jump_target H d2 (pc d2) (last_pc d2)) (\<lambda>(d3, target).
                    Inr (d3\<lparr>pc := target\<rparr>))
             else if is_implicit_return d2 instr
             then (let (link, d3) = pop_return_stack d2 in Inr (d3\<lparr>pc := link\<rparr>))
             else if is_uninferrable_discon instr
             then (if stop_at_last_branch d2
                   then Inl (unrecoverable_error ''unexpected uninferrable discontinuity'')
                   else Inr (d2\<lparr>pc := addr\<rparr>))
             else
               and_then (is_taken_branch d2 instr) (\<lambda>(d3, taken).
                 if taken
                 then Inr (d3\<lparr>pc := pc d3 + scast (imm (decode instr))\<rparr>)
                 else Inr (d3\<lparr>pc := pc d3 + of_nat (instruction_size instr)\<rparr>))))
        (\<lambda>d4.
      and_then (if is_call instr then push_return_stack H d4 this_pc else Inr d4) (\<lambda>d5.
        disseminate_pc H (d5\<lparr>last_pc := this_pc\<rparr>)))))"


text \<open>
  The view of the state that leaves out the decode cache and its statistics, and the
  content of the return stack as a list, oldest link first.
\<close>

definition core :: "te_decoder_state_t \<Rightarrow> te_decoder_state_t" where
  "core d = d\<lparr>decoded_cache := (\<lambda>_. zero_instr), num_gets := 0, num_same := 0, num_hits := 0\<rparr>"

definition stack_contents :: "te_decoder_state_t \<Rightarrow> te_address_t list" where
  "stack_contents d = map (return_stack d) [0..<call_counter d]"

text \<open>
  A sequence of calls: push_return_stack for each address in turn; the second component
  collects the links, each the call's address plus the length of the instruction there.
\<close>

fun push_all ::
  "host \<Rightarrow> te_decoder_state_t \<Rightarrow> te_address_t list
     \<Rightarrow> te_error + (te_decoder_state_t \<times> te_address_t list)" where
  "push_all H d [] = Inr (d, [])"
| "push_all H d (a # as) =
     and_then (get_instr H d a sentinel_instr) (\<lambda>(dc, i).
     and_then (push_return_stack H d a) (\<lambda>d1.
     and_then (push_all H d1 as) (\<lambda>(d2, links).
       Inr (d2, (a + of_nat (instruction_size i)) # links))))"

subsection \<open>The walk to the reported address\<close>

text \<open>The expression \<open>is_branch(get_instr(decoder, decoder->pc, &instr))\<close>.\<close>

definition branch_at_pc ::
  "host \<Rightarrow> te_decoder_state_t \<Rightarrow> te_decoded_instruction_t
     \<Rightarrow> te_error + (te_decoder_state_t \<times> te_decoded_instruction_t \<times> bool)" where
  "branch_at_pc H d instr =
     and_then (get_instr H d (pc d) instr) (\<lambda>(d1, instr1). Inr (d1, instr1, is_branch instr1))"

text \<open>
  One pass through the body of \<open>while (true)\<close> in follow_execution_path: it returns
  from the function, or goes round again with the state and the two local instructions.
  The operands of \<open>&&\<close> are evaluated left to right and only as far as needed, so a
  \<open>get_instr\<close> inside a condition runs only when the conjuncts before it hold.
\<close>

datatype walk_t =
    Return te_decoder_state_t
  | Continue te_decoder_state_t te_decoded_instruction_t te_decoded_instruction_t

definition follow_iter ::
  "host \<Rightarrow> te_decoder_state_t \<Rightarrow> te_address_t \<Rightarrow> te_inst_t \<Rightarrow> te_address_t
     \<Rightarrow> te_decoded_instruction_t \<Rightarrow> te_decoded_instruction_t \<Rightarrow> te_error + walk_t" where
  "follow_iter H d addr te previous_address instr last_instr =
     (if stop_at_last_branch d \<and> 0 = branches d
      then Inl (unrecoverable_error
             ''follow_execution_path() has stop_at_last_branch=true and branches=0'')
      else if inferred_address d
      then
        and_then (next_pc H d previous_address) (\<lambda>d1.
        and_then (get_instr H d1 (pc d1) instr) (\<lambda>(d2, instr2).
          Inr (Continue (if pc d2 = previous_address then d2\<lparr>inferred_address := False\<rparr> else d2)
                 instr2 last_instr)))
      else
        and_then (next_pc H d addr) (\<lambda>d1.
        and_then (get_instr H d1 (pc d1) instr) (\<lambda>(d2, instr2).
        and_then (if 1 = branches d2 then branch_at_pc H d2 instr2 else Inr (d2, instr2, False))
          (\<lambda>(d3, instr3, b3).
        if 1 = branches d2 \<and> b3 \<and> stop_at_last_branch d3
        then Inr (Return (d3\<lparr>stop_at_last_branch := False\<rparr>))
        else
          and_then
            (if pc d3 = addr
             then and_then (get_instr H d3 (last_pc d3) last_instr) (\<lambda>(d4, last4).
                    Inr (d4, last4, is_uninferrable_discon last4))
             else Inr (d3, last_instr, False))
            (\<lambda>(d4, last4, c4).
          if pc d3 = addr \<and> c4
          then
            and_then (branch_at_pc H d4 instr3) (\<lambda>(d5, instr5, b5).
              if branches d5 > (if b5 then 1 else 0)
              then Inl (unrecoverable_error ''unprocessed branches'')
              else Inr (Return d5))
          else
            let c5 = (3 \<noteq> format te \<and> pc d4 = addr \<and>
                      (if updiscon te then 1 else 0) = MSB (te_inst_t.address te)) in
            and_then (if c5 then branch_at_pc H d4 instr3 else Inr (d4, instr3, False))
              (\<lambda>(d5, instr5, b5).
            if c5 \<and> branches d5 = (if b5 then 1 else 0)
            then Inr (Return (d5\<lparr>inferred_address := True\<rparr>))
            else
              let c6 = (3 = format te \<and> pc d5 = addr) in
              and_then (if c6 then branch_at_pc H d5 instr5 else Inr (d5, instr5, False))
                (\<lambda>(d6, instr6, b6).
              if c6 \<and> branches d6 = (if b6 then 1 else 0)
              then Inr (Return d6)
              else Inr (Continue d6 instr6 last4))))))))"

text \<open>
  The four tests that follow the step in the body above, each by itself and in the
  order of the source; \<open>follow_iter_unfold\<close> below relates them to \<open>follow_iter\<close>.
\<close>

definition follow_check4 ::
  "host \<Rightarrow> te_decoder_state_t \<Rightarrow> te_address_t \<Rightarrow> te_inst_t
     \<Rightarrow> te_decoded_instruction_t \<Rightarrow> te_decoded_instruction_t \<Rightarrow> te_error + walk_t" where
  "follow_check4 H d5 addr te instr5 last4 =
     (let c6 = (3 = format te \<and> pc d5 = addr) in
      and_then (if c6 then branch_at_pc H d5 instr5 else Inr (d5, instr5, False))
        (\<lambda>(d6, instr6, b6).
      if c6 \<and> branches d6 = (if b6 then 1 else 0)
      then Inr (Return d6)
      else Inr (Continue d6 instr6 last4)))"

definition follow_check3 ::
  "host \<Rightarrow> te_decoder_state_t \<Rightarrow> te_address_t \<Rightarrow> te_inst_t
     \<Rightarrow> te_decoded_instruction_t \<Rightarrow> te_decoded_instruction_t \<Rightarrow> te_error + walk_t" where
  "follow_check3 H d4 addr te instr3 last4 =
     (let c5 = (3 \<noteq> format te \<and> pc d4 = addr \<and>
                (if updiscon te then 1 else 0) = MSB (te_inst_t.address te)) in
      and_then (if c5 then branch_at_pc H d4 instr3 else Inr (d4, instr3, False))
        (\<lambda>(d5, instr5, b5).
      if c5 \<and> branches d5 = (if b5 then 1 else 0)
      then Inr (Return (d5\<lparr>inferred_address := True\<rparr>))
      else follow_check4 H d5 addr te instr5 last4))"

definition follow_check2 ::
  "host \<Rightarrow> te_decoder_state_t \<Rightarrow> te_address_t \<Rightarrow> te_inst_t
     \<Rightarrow> te_decoded_instruction_t \<Rightarrow> te_decoded_instruction_t \<Rightarrow> te_error + walk_t" where
  "follow_check2 H d3 addr te instr3 last_instr =
     and_then
       (if pc d3 = addr
        then and_then (get_instr H d3 (last_pc d3) last_instr) (\<lambda>(d4, last4).
               Inr (d4, last4, is_uninferrable_discon last4))
        else Inr (d3, last_instr, False))
       (\<lambda>(d4, last4, c4).
     if pc d3 = addr \<and> c4
     then
       and_then (branch_at_pc H d4 instr3) (\<lambda>(d5, instr5, b5).
         if branches d5 > (if b5 then 1 else 0)
         then Inl (unrecoverable_error ''unprocessed branches'')
         else Inr (Return d5))
     else follow_check3 H d4 addr te instr3 last4)"

definition follow_check1 ::
  "host \<Rightarrow> te_decoder_state_t \<Rightarrow> te_address_t \<Rightarrow> te_inst_t
     \<Rightarrow> te_decoded_instruction_t \<Rightarrow> te_decoded_instruction_t \<Rightarrow> te_error + walk_t" where
  "follow_check1 H d2 addr te instr2 last_instr =
     and_then (if 1 = branches d2 then branch_at_pc H d2 instr2 else Inr (d2, instr2, False))
       (\<lambda>(d3, instr3, b3).
     if 1 = branches d2 \<and> b3 \<and> stop_at_last_branch d3
     then Inr (Return (d3\<lparr>stop_at_last_branch := False\<rparr>))
     else follow_check2 H d3 addr te instr3 last_instr)"

text \<open>
  The state that a pass hands on, and the ways in which the tests after a step leave
  the loop or go round again: the state they hand on agrees, up to the cache, with the
  state \<open>d2\<close> after the step, but for the one flag that a stop may write.
\<close>

primrec walk_state :: "walk_t \<Rightarrow> te_decoder_state_t" where
  "walk_state (Return d) = d"
| "walk_state (Continue d instr last_instr) = d"

definition walk_result :: "te_decoder_state_t \<Rightarrow> te_address_t \<Rightarrow> te_inst_t \<Rightarrow> walk_t \<Rightarrow> bool" where
  "walk_result d2 addr te r \<longleftrightarrow>
     (\<exists>dk. core dk = core d2 \<and>
        ((r = Return (dk\<lparr>stop_at_last_branch := False\<rparr>) \<and> branches d2 = 1 \<and>
          stop_at_last_branch d2) \<or>
         (r = Return dk \<and> pc d2 = addr \<and> branches d2 \<le> 1) \<or>
         (r = Return (dk\<lparr>inferred_address := True\<rparr>) \<and> format te \<noteq> 3 \<and> pc d2 = addr \<and>
          branches d2 \<le> 1) \<or>
         (\<exists>i l. r = Continue dk i l)))"

text \<open>
  The loop has no bound in the source. The first argument bounds the number of passes;
  \<open>None\<close> means the bound was reached before the loop left.
\<close>

fun follow_loop ::
  "nat \<Rightarrow> host \<Rightarrow> te_decoder_state_t \<Rightarrow> te_address_t \<Rightarrow> te_inst_t \<Rightarrow> te_address_t
     \<Rightarrow> te_decoded_instruction_t \<Rightarrow> te_decoded_instruction_t
     \<Rightarrow> (te_error + te_decoder_state_t) option" where
  "follow_loop 0 H d addr te previous_address instr last_instr = None"
| "follow_loop (Suc n) H d addr te previous_address instr last_instr =
     (case follow_iter H d addr te previous_address instr last_instr of
        Inl e \<Rightarrow> Some (Inl e)
      | Inr (Return d') \<Rightarrow> Some (Inr d')
      | Inr (Continue d' instr' last_instr') \<Rightarrow>
          follow_loop n H d' addr te previous_address instr' last_instr')"

definition follow_execution_path ::
  "nat \<Rightarrow> host \<Rightarrow> te_decoder_state_t \<Rightarrow> te_address_t \<Rightarrow> te_inst_t
     \<Rightarrow> (te_error + te_decoder_state_t) option" where
  "follow_execution_path n H d addr te =
     (let previous_address = pc d in
      if \<not> (\<not> stop_at_last_branch d \<or> 1 = branches d \<or> 2 = branches d \<or>
             31 = branches d \<or> 32 = branches d)
      then Some (Inl assertion_failed)
      else
        case get_instr H d (pc d) sentinel_instr of
          Inl e \<Rightarrow> Some (Inl e)
        | Inr (d1, instr) \<Rightarrow> follow_loop n H d1 addr te previous_address instr sentinel_instr)"

subsection \<open>Packet dispatch\<close>

text \<open>
  The part of te_process_te_inst for a packet of format 0, 1 or 2 that comes before the
  call of follow_execution_path.
\<close>

definition te_inst_update :: "te_decoder_state_t \<Rightarrow> te_inst_t \<Rightarrow> te_error + te_decoder_state_t" where
  "te_inst_update d te =
     (if start_of_trace d
      then Inl (unrecoverable_error ''Expecting trace to start with a format 3 message'')
      else
        let d1 = (if 2 = format te \<or> 0 \<noteq> te_inst_t.branches te
                  then d\<lparr>stop_at_last_branch := False,
                         address := (if full_address
                                     then push_bit iaddress_lsb (te_inst_t.address te)
                                     else address d + push_bit iaddress_lsb (te_inst_t.address te))\<rparr>
                  else d)
        in
        if 1 = format te
        then
          let d2 = d1\<lparr>stop_at_last_branch := (te_inst_t.branches te = 0)\<rparr> in
          if \<not> branches d2 \<le> 1 then Inl assertion_failed
          else if \<not> ((0 = branches d2 \<and> 0 = branch_map d2) \<or>
                      (1 = branches d2 \<and> 0 = (branch_map d2 AND NOT 1)))
          then Inl assertion_failed
          else
            let d3 = d2\<lparr>branch_map :=
                          branch_map d2 OR push_bit (branches d2) (te_inst_t.branch_map te)\<rparr>
            in Inr (if 0 = te_inst_t.branches te
                    then d3\<lparr>branches := branches d3 + 31\<rparr>
                    else d3\<lparr>branches := branches d3 + te_inst_t.branches te\<rparr>)
        else Inr d1)"

definition te_process_te_inst ::
  "nat \<Rightarrow> host \<Rightarrow> te_decoder_state_t \<Rightarrow> te_inst_t \<Rightarrow> (te_error + te_decoder_state_t) option" where
  "te_process_te_inst n H d te =
     (if 3 = format te
      then
        let d1 = d\<lparr>inferred_address := False,
                   address := push_bit iaddress_lsb (te_inst_t.address te)\<rparr>;
            d2 = (if 1 = subformat te \<or> start_of_trace d1
                  then d1\<lparr>branches := 0, branch_map := 0\<rparr> else d1)
        in
        case get_instr H d2 (address d2) sentinel_instr of
          Inl e \<Rightarrow> Some (Inl e)
        | Inr (d3, instr) \<Rightarrow>
            let d4 = (if is_branch instr
                      then d3\<lparr>branch_map :=
                                branch_map d3 OR push_bit (branches d3) (if branch te then 1 else 0),
                              branches := branches d3 + 1\<rparr>
                      else d3)
            in
            (case (if 0 = subformat te \<and> \<not> start_of_trace d4
                   then follow_execution_path n H d4 (address d4) te
                   else
                     (case disseminate_pc H (d4\<lparr>last_pc := pc d4, pc := address d4\<rparr>) of
                        Inl e \<Rightarrow> Some (Inl e)
                      | Inr d5 \<Rightarrow> Some (Inr (d5\<lparr>last_pc := pc d5\<rparr>))))
             of
               None \<Rightarrow> None
             | Some (Inl e) \<Rightarrow> Some (Inl e)
             | Some (Inr d6) \<Rightarrow> Some (Inr (d6\<lparr>start_of_trace := False, call_counter := 0\<rparr>)))
      else
        (case te_inst_update d te of
           Inl e \<Rightarrow> Some (Inl e)
         | Inr d1 \<Rightarrow> follow_execution_path n H d1 (address d1) te))"

text \<open>The loop of te_process_te_support, bounded like the one above.\<close>

fun support_loop ::
  "nat \<Rightarrow> host \<Rightarrow> te_decoder_state_t \<Rightarrow> te_address_t \<Rightarrow> (te_error + te_decoder_state_t) option" where
  "support_loop 0 H d previous_address = None"
| "support_loop (Suc n) H d previous_address =
     (case next_pc H d previous_address of
        Inl e \<Rightarrow> Some (Inl e)
      | Inr d1 \<Rightarrow> if pc d1 = previous_address then Some (Inr d1)
                  else support_loop n H d1 previous_address)"

definition te_process_te_support ::
  "nat \<Rightarrow> host \<Rightarrow> te_decoder_state_t \<Rightarrow> te_support_t \<Rightarrow> (te_error + te_decoder_state_t) option" where
  "te_process_te_support n H d ts =
     (if 0 = support_type ts
      then
        let d1 = (if QUAL_STATUS_ENDED_NTR = qual_status ts \<or> QUAL_STATUS_ENDED_REP = qual_status ts
                  then d\<lparr>start_of_trace := True\<rparr> else d)
        in
        if QUAL_STATUS_ENDED_NTR = qual_status ts \<and> inferred_address d1
        then (let previous_address = pc d1 in
              support_loop n H (d1\<lparr>inferred_address := False\<rparr>) previous_address)
        else Some (Inr d1)
      else Some (Inr d))"

definition te_open_trace_decoder :: "rv_isa \<Rightarrow> te_decoder_state_t" where
  "te_open_trace_decoder i =
     \<lparr>isa = i, pc = SENTINEL_BAD_ADDRESS, last_pc = SENTINEL_BAD_ADDRESS,
      address = SENTINEL_BAD_ADDRESS, branches = 0, branch_map = 0,
      stop_at_last_branch = False, inferred_address = False, start_of_trace = True,
      call_counter = 0, return_stack = (\<lambda>_. 0), instruction_count = 0,
      decoded_cache = (\<lambda>_. zero_instr), num_gets = 0, num_same = 0, num_hits = 0,
      retired = []\<rparr>"

subsection \<open>Runs of packets and the host's contract\<close>

text \<open>A host driver: the packets of a list are processed one after the other.\<close>

fun te_process_all ::
  "nat \<Rightarrow> host \<Rightarrow> te_decoder_state_t \<Rightarrow> te_inst_t list
     \<Rightarrow> (te_error + te_decoder_state_t) option" where
  "te_process_all n H d [] = Some (Inr d)"
| "te_process_all n H d (te # tes) =
     (case te_process_te_inst n H d te of
        None \<Rightarrow> None
      | Some (Inl e) \<Rightarrow> Some (Inl e)
      | Some (Inr d') \<Rightarrow> te_process_all n H d' tes)"

text \<open>
  The number of branches a format 1 packet announces (31 for the value 0), and the
  packets whose branch_map has no bit at or above that number.
\<close>

definition packet_branches :: "te_inst_t \<Rightarrow> nat" where
  "packet_branches te = (if te_inst_t.branches te = 0 then 31 else te_inst_t.branches te)"

definition clean_packet :: "te_inst_t \<Rightarrow> bool" where
  "clean_packet te \<longleftrightarrow>
     (format te = 1 \<longrightarrow> drop_bit (packet_branches te) (te_inst_t.branch_map te) = 0)"

text \<open>Every bit of branch_map at position \<open>branches\<close> or above is zero.\<close>

definition map_clear :: "te_decoder_state_t \<Rightarrow> bool" where
  "map_clear d \<longleftrightarrow> drop_bit (branches d) (branch_map d) = 0"

text \<open>
  The instruction that the host yields for an address; the contract of the external
  functions as get_instr relies on it (a length of 2 or 4, which it asserts, and a
  decoding that records the address it was given in \<open>decode.pc\<close>, which it compares to
  find an address in its cache); and what it means for the decode cache, or for a
  local instruction record, to agree with the host at an address.
\<close>

definition host_instr :: "host \<Rightarrow> rv_isa \<Rightarrow> te_address_t \<Rightarrow> te_decoded_instruction_t" where
  "host_instr H i a =
     (let (len, instruction) = te_get_instruction H a;
          (dec, ln) = disasm_inst_adv H i a instruction
      in \<lparr>decode = dec, instr_length = len, line = ln\<rparr>)"

definition host_ok :: "host \<Rightarrow> bool" where
  "host_ok H \<longleftrightarrow>
     (\<forall>a. (fst (te_get_instruction H a) = 4 \<or> fst (te_get_instruction H a) = 2) \<and>
          (\<forall>i r. rv_decode.pc (fst (disasm_inst_adv H i a r)) = a))"

definition local_ok :: "host \<Rightarrow> rv_isa \<Rightarrow> te_decoded_instruction_t \<Rightarrow> te_address_t \<Rightarrow> bool" where
  "local_ok H i instr a \<longleftrightarrow> (rv_decode.pc (decode instr) = a \<longrightarrow> instr = host_instr H i a)"

definition cache_ok :: "host \<Rightarrow> te_decoder_state_t \<Rightarrow> te_address_t \<Rightarrow> bool" where
  "cache_ok H d a \<longleftrightarrow> local_ok H (isa d) (decoded_cache d (TE_SLOT_NUMBER H a)) a"

subsection \<open>A small program image\<close>

text \<open>
  A host whose image holds, at 0x1004 a branch, at 0x1008 a call, at 0x100c an mret,
  at 0x2000 and 0x2004 the pair lui x5 / jalr x0, 0x100(x5), and an instruction that is
  none of the classified ones everywhere else; every instruction is 4 bytes long.
\<close>

definition demo_decode :: "te_address_t \<Rightarrow> rv_decode" where
  "demo_decode a =
     (if a = 0x1004 then \<lparr>rv_decode.pc = a, op = rv_op_beq, rd = 0, rs1 = 10, imm = 8\<rparr>
      else if a = 0x1008 then \<lparr>rv_decode.pc = a, op = rv_op_jal, rd = 1, rs1 = 0, imm = 0x40\<rparr>
      else if a = 0x100c then \<lparr>rv_decode.pc = a, op = rv_op_mret, rd = 0, rs1 = 0, imm = 0\<rparr>
      else if a = 0x2000 then \<lparr>rv_decode.pc = a, op = rv_op_lui, rd = 5, rs1 = 0, imm = 0x2000\<rparr>
      else if a = 0x2004 then \<lparr>rv_decode.pc = a, op = rv_op_jalr, rd = 0, rs1 = 5, imm = 0x100\<rparr>
      else \<lparr>rv_decode.pc = a, op = rv_op_other 0, rd = 0, rs1 = 0, imm = 0\<rparr>)"

definition demo_host :: host where
  "demo_host = \<lparr>te_get_instruction = (\<lambda>a. (4, 0)),
                 disasm_inst_adv = (\<lambda>i a r. (demo_decode a, [])),
                 TE_SLOT_NUMBER = (\<lambda>a. unat (drop_bit 1 a) mod 16)\<rparr>"

text \<open>A decoder that has retired one instruction and stands at 0x1000.\<close>

definition demo_state :: te_decoder_state_t where
  "demo_state = (te_open_trace_decoder rv64)
     \<lparr>pc := 0x1000, last_pc := 0xffc, address := 0x1000, start_of_trace := False,
      instruction_count := 1\<rparr>"

definition demo_instr :: "te_address_t \<Rightarrow> te_decoded_instruction_t" where
  "demo_instr a = \<lparr>decode = demo_decode a, instr_length = 4, line = []\<rparr>"

definition demo_format1 :: te_inst_t where
  "demo_format1 = \<lparr>format = 1, subformat = 0, te_inst_t.address = 2, branch = False,
     te_inst_t.branches = 1, te_inst_t.branch_map = 3, updiscon = False\<rparr>"

text \<open>A decoder whose return stack holds \<open>n\<close> links, the link at index k being k.\<close>

definition demo_stack :: "nat \<Rightarrow> te_decoder_state_t" where
  "demo_stack n = demo_state\<lparr>call_counter := n, return_stack := of_nat\<rparr>"

lemmas demo_defs =
  demo_host_def demo_state_def demo_decode_def demo_instr_def te_open_trace_decoder_def
  sentinel_instr_def zero_instr_def SENTINEL_BAD_ADDRESS_def

section \<open>Properties\<close>

subsection \<open>Basic facts\<close>

lemma and_then_Inl [simp]: "and_then (Inl e) f = Inl e"
  by (simp add: and_then_def)

lemma and_then_Inr [simp]: "and_then (Inr x) f = f x"
  by (simp add: and_then_def)

lemma and_then_eq_Inr: "and_then m f = Inr y \<longleftrightarrow> (\<exists>x. m = Inr x \<and> f x = Inr y)"
  by (cases m) simp_all

lemma and_1_eq_0_iff: "(w AND 1 = 0) = (\<not> bit w 0)" for w :: "32 word"
  by (simp add: and_one_eq bit_0 even_iff_mod_2_eq_zero)

text \<open>\<open>get_instr\<close> writes the decode cache and the statistics, and nothing else.\<close>

lemma get_instr_frame:
  assumes "get_instr H d a i = Inr (d', i')"
  shows "\<exists>c g s h. d' = d\<lparr>decoded_cache := c, num_gets := g, num_same := s, num_hits := h\<rparr>"
proof -
  have "d' = d\<lparr>decoded_cache := decoded_cache d', num_gets := num_gets d',
                 num_same := num_same d', num_hits := num_hits d'\<rparr>"
    using assms by (auto simp: get_instr_def Let_def split: if_splits prod.splits)
  then show ?thesis by blast
qed

subsection \<open>Return stack: pop\<close>

lemma pop_return_stack_reads_at_call_counter:
  "fst (pop_return_stack d) = return_stack d (call_counter d)"
  by (simp add: pop_return_stack_def Let_def)

lemma wrap_decrement:
  assumes "0 < (c::nat)" "c < 2 ^ 64"
  shows "(c + 2 ^ 64 - 1) mod 2 ^ 64 = c - 1"
proof -
  have e: "c + 2 ^ 64 - 1 = (c - 1) + 2 ^ 64"
    using assms by linarith
  have "((c - 1) + 2 ^ 64) mod 2 ^ 64 = (c - 1) mod (2 ^ 64 :: nat)"
    by (rule mod_add_self2)
  also have "\<dots> = c - 1"
    using assms by (intro mod_less) linarith
  finally show ?thesis
    by (simp only: e)
qed

lemma pop_return_stack_decrements:
  assumes "0 < call_counter d" "call_counter d < 2 ^ 64"
  shows "snd (pop_return_stack d) = d\<lparr>call_counter := call_counter d - 1\<rparr>"
  unfolding pop_return_stack_def Let_def snd_conv
  by (simp only: wrap_decrement [OF assms])

text \<open>
  C1. The claim: with call_counter > 0, pop_return_stack returns the element at index
  call_counter - 1 and decrements call_counter. The code reads index call_counter.
  Evaluated on the stack that one push of the link 0x100c onto the empty stack leaves
  (call_counter = 1, element 0 holds 0x100c, element 1 still holds 0): the pop returns
  0, the content of element 1, and not the link 0x100c stored at index call_counter - 1.
\<close>

theorem pop_return_stack_off_by_one:
  "pop_return_stack
     (demo_state\<lparr>call_counter := 1, return_stack := (return_stack demo_state)(0 := 0x100c)\<rparr>) =
   (0, demo_state\<lparr>call_counter := 0, return_stack := (return_stack demo_state)(0 := 0x100c)\<rparr>)"
  by (simp add: pop_return_stack_def demo_defs)

lemma pop_return_stack_after_push:
  "\<exists>d. push_return_stack demo_host demo_state 0x1008 = Inr d \<and> call_counter d = 1 \<and>
       return_stack d (call_counter d - 1) = 0x100c \<and>
       fst (pop_return_stack d) = 0 \<and> call_counter (snd (pop_return_stack d)) = 0"
  by (simp add: push_return_stack_def demo_defs get_instr_def call_counter_width_def
      TE_MAX_CALL_DEPTH_def instruction_size_def pop_return_stack_def Let_def)

subsection \<open>Branch resolution\<close>

text \<open>
  C4. For a branch instruction with branches > 0, is_taken_branch answers the negation
  of bit 0 of branch_map, shifts branch_map right by one and decrements branches, and
  changes nothing else; with branches = 0 it raises the branch-map-depletion error; for
  an instruction that is not a branch it answers false and leaves the state as it is.
\<close>

theorem is_taken_branch_spec:
  "(is_branch instr \<and> 0 < branches d \<longrightarrow>
      is_taken_branch d instr =
        Inr (d\<lparr>branches := branches d - 1, branch_map := drop_bit 1 (branch_map d)\<rparr>,
             \<not> bit (branch_map d) 0)) \<and>
   (is_branch instr \<and> branches d = 0 \<longrightarrow>
      is_taken_branch d instr =
        Inl (unrecoverable_error ''cannot resolve branch (branch-map depleted)!'')) \<and>
   (\<not> is_branch instr \<longrightarrow> is_taken_branch d instr = Inr (d, False))"
  by (simp add: is_taken_branch_def Let_def and_1_eq_0_iff)

theorem is_taken_branch_spec_witness:
  "is_taken_branch (demo_state\<lparr>branches := 2, branch_map := 2\<rparr>) (demo_instr 0x1004) =
     Inr (demo_state\<lparr>branches := 1, branch_map := 1\<rparr>, True) \<and>
   is_taken_branch demo_state (demo_instr 0x1004) =
     Inl (unrecoverable_error ''cannot resolve branch (branch-map depleted)!'') \<and>
   is_taken_branch (demo_state\<lparr>branches := 2, branch_map := 2\<rparr>) (demo_instr 0x1000) =
     Inr (demo_state\<lparr>branches := 2, branch_map := 2\<rparr>, False)"
  using is_taken_branch_spec [of "demo_instr 0x1004" "demo_state\<lparr>branches := 2, branch_map := 2\<rparr>"]
    is_taken_branch_spec [of "demo_instr 0x1004" demo_state]
    is_taken_branch_spec [of "demo_instr 0x1000" "demo_state\<lparr>branches := 2, branch_map := 2\<rparr>"]
  by (simp add: is_branch_def demo_defs)

subsection \<open>Sequentially inferrable jumps\<close>

text \<open>
  C6. When the instruction at the previous address can be fetched, is_sequential_jump
  answers true exactly for an uninferrable jump whose predecessor is auipc, lui or c.lui
  with rd equal to the jump's rs1 (and false, without fetching, for anything that is
  not an uninferrable jump). The target that sequential_jump_target computes is
  prev_addr + prev.imm after auipc and prev.imm alone otherwise, plus the current
  instruction's imm exactly when its opcode is jalr.
\<close>

theorem sequential_jump_spec:
  "(get_instr H d prev_addr sentinel_instr = Inr (d1, prev) \<longrightarrow>
      (\<exists>d'. is_sequential_jump H d instr prev_addr =
         Inr (d', is_uninferrable_jump instr \<and>
                  (op (decode prev) = rv_op_auipc \<or> op (decode prev) = rv_op_lui \<or>
                   op (decode prev) = rv_op_c_lui) \<and>
                  rd (decode prev) = rs1 (decode instr)))) \<and>
   (\<not> is_uninferrable_jump instr \<longrightarrow> is_sequential_jump H d instr prev_addr = Inr (d, False)) \<and>
   (get_instr H d a sentinel_instr = Inr (d2, cur) \<and>
    get_instr H d2 prev_addr sentinel_instr = Inr (d3, prev') \<longrightarrow>
      sequential_jump_target H d a prev_addr =
        Inr (d3, (if op (decode prev') = rv_op_auipc
                  then prev_addr + scast (imm (decode prev'))
                  else scast (imm (decode prev'))) +
                 (if op (decode cur) = rv_op_jalr then scast (imm (decode cur)) else 0)))"
  by (auto simp: is_sequential_jump_def sequential_jump_target_def Let_def)

theorem sequential_jump_spec_witness:
  "(\<exists>d'. is_sequential_jump demo_host (demo_state\<lparr>pc := 0x2004, last_pc := 0x2000\<rparr>)
           (demo_instr 0x2004) 0x2000 = Inr (d', True)) \<and>
   is_sequential_jump demo_host demo_state (demo_instr 0x1004) 0xffc = Inr (demo_state, False) \<and>
   (\<exists>d'. sequential_jump_target demo_host (demo_state\<lparr>pc := 0x2004, last_pc := 0x2000\<rparr>)
           0x2004 0x2000 = Inr (d', 0x2100))"
  using sequential_jump_spec [where H = demo_host
      and d = "demo_state\<lparr>pc := 0x2004, last_pc := 0x2000\<rparr>" and prev_addr = "0x2000"
      and ?d1.0 = "demo_state\<lparr>pc := 0x2004, last_pc := 0x2000, num_gets := 1,
         decoded_cache := (\<lambda>_. zero_instr)(0 := demo_instr 0x2000)\<rparr>"
      and prev = "demo_instr 0x2000" and instr = "demo_instr 0x2004" and a = "0x2004"
      and ?d2.0 = "demo_state\<lparr>pc := 0x2004, last_pc := 0x2000, num_gets := 1,
         decoded_cache := (\<lambda>_. zero_instr)(2 := demo_instr 0x2004)\<rparr>"
      and cur = "demo_instr 0x2004"
      and ?d3.0 = "demo_state\<lparr>pc := 0x2004, last_pc := 0x2000, num_gets := 2,
         decoded_cache := (\<lambda>_. zero_instr)(2 := demo_instr 0x2004, 0 := demo_instr 0x2000)\<rparr>"
      and prev' = "demo_instr 0x2000"]
    sequential_jump_spec [where H = demo_host and d = demo_state and prev_addr = "0xffc"
      and instr = "demo_instr 0x1004"]
  by (simp add: demo_defs get_instr_def is_uninferrable_jump_def Let_def)

subsection \<open>Support packets\<close>

text \<open>
  C10. A te_support packet whose support_type is not 0 leaves every field of the decoder
  state as it is and emits no retirement, whatever its qual_status; the function
  returns at once.
\<close>

theorem te_process_te_support_other_type:
  "support_type ts \<noteq> 0 \<Longrightarrow> te_process_te_support n H d ts = Some (Inr d)"
  by (simp add: te_process_te_support_def)

theorem te_process_te_support_other_type_witness:
  "te_process_te_support 0 demo_host (demo_state\<lparr>inferred_address := True\<rparr>)
     \<lparr>support_type = 1, qual_status = QUAL_STATUS_ENDED_NTR\<rparr> =
   Some (Inr (demo_state\<lparr>inferred_address := True\<rparr>))"
  using te_process_te_support_other_type
    [of "\<lparr>support_type = 1, qual_status = QUAL_STATUS_ENDED_NTR\<rparr>" 0 demo_host
        "demo_state\<lparr>inferred_address := True\<rparr>"]
  by simp

subsection \<open>Frames\<close>

lemma core_fields:
  assumes "core d' = core d"
  shows "isa d' = isa d" "pc d' = pc d" "last_pc d' = last_pc d" "address d' = address d"
    "branches d' = branches d" "branch_map d' = branch_map d"
    "stop_at_last_branch d' = stop_at_last_branch d" "inferred_address d' = inferred_address d"
    "start_of_trace d' = start_of_trace d" "call_counter d' = call_counter d"
    "return_stack d' = return_stack d" "instruction_count d' = instruction_count d"
    "retired d' = retired d"
  using assms by (cases d; cases d'; simp add: core_def)+

lemma core_update [simp]:
  "core (d\<lparr>decoded_cache := c\<rparr>) = core d"
  "core (d\<lparr>num_gets := g\<rparr>) = core d"
  "core (d\<lparr>num_same := s\<rparr>) = core d"
  "core (d\<lparr>num_hits := h\<rparr>) = core d"
  by (simp_all add: core_def)

lemma get_instr_core:
  assumes "get_instr H d a i = Inr (d', i')"
  shows "core d' = core d"
  using get_instr_frame [OF assms] by auto

lemmas get_instr_fields = core_fields [OF get_instr_core]

lemma is_sequential_jump_core:
  assumes "is_sequential_jump H d instr a = Inr (d', b)"
  shows "core d' = core d"
proof (cases "is_uninferrable_jump instr")
  case False
  then show ?thesis using assms by (simp add: is_sequential_jump_def)
next
  case True
  then obtain d1 p where "get_instr H d a sentinel_instr = Inr (d1, p)" "d' = d1"
    using assms by (auto simp: is_sequential_jump_def and_then_eq_Inr split: if_splits)
  then show ?thesis by (simp add: get_instr_core)
qed

lemmas is_sequential_jump_fields = core_fields [OF is_sequential_jump_core]

lemma discon_not_inferrable: "is_uninferrable_discon instr \<Longrightarrow> \<not> is_inferrable_jump instr"
  by (auto simp: is_uninferrable_discon_def is_uninferrable_jump_def is_inferrable_jump_def)

subsection \<open>Uninferrable discontinuity before the last branch\<close>

text \<open>
  C9. If the instruction fetched at pc is an uninferrable discontinuity, is not a
  sequentially inferrable jump and not an implicit return, and stop_at_last_branch is
  set, next_pc raises the error "unexpected uninferrable discontinuity" and does not
  jump to the reported address.
\<close>

theorem next_pc_unexpected_discon:
  assumes "get_instr H d (pc d) sentinel_instr = Inr (d1, instr)"
    and "is_uninferrable_discon instr"
    and "is_sequential_jump H d1 instr (last_pc d1) = Inr (d2, False)"
    and "\<not> is_implicit_return d2 instr"
    and "stop_at_last_branch d"
  shows "next_pc H d addr = Inl (unrecoverable_error ''unexpected uninferrable discontinuity'')"
proof -
  have "stop_at_last_branch d2"
    using assms(1,3,5) by (simp add: get_instr_fields is_sequential_jump_fields)
  then show ?thesis
    using assms(1-4) by (simp add: next_pc_def discon_not_inferrable)
qed

theorem next_pc_unexpected_discon_witness:
  "next_pc demo_host (demo_state\<lparr>pc := 0x100c, stop_at_last_branch := True\<rparr>) 0x2000 =
     Inl (unrecoverable_error ''unexpected uninferrable discontinuity'')"
  using next_pc_unexpected_discon [where H = demo_host
      and d = "demo_state\<lparr>pc := 0x100c, stop_at_last_branch := True\<rparr>"
      and ?d1.0 = "demo_state\<lparr>pc := 0x100c, stop_at_last_branch := True, num_gets := 1,
         decoded_cache := (\<lambda>_. zero_instr)(6 := demo_instr 0x100c)\<rparr>"
      and instr = "demo_instr 0x100c"
      and ?d2.0 = "demo_state\<lparr>pc := 0x100c, stop_at_last_branch := True, num_gets := 1,
         decoded_cache := (\<lambda>_. zero_instr)(6 := demo_instr 0x100c)\<rparr>"
      and addr = "0x2000"]
  by (simp add: demo_defs get_instr_def is_uninferrable_discon_def is_uninferrable_jump_def
      is_sequential_jump_def is_implicit_return_def implicit_return_def Let_def)

subsection \<open>Dispatch of a format 1 packet\<close>

text \<open>
  C7. For a format 1 packet that arrives after the trace has started, with the pending
  branches as the code asserts them (none pending and branch_map = 0, or one pending and
  no bit of branch_map set other than bit 0): the dispatch sets stop_at_last_branch to
  (packet.branches = 0), ORs packet.branch_map shifted left by the pending count into
  branch_map, adds packet.branches, or 31 when it is 0, to branches, and then calls the
  walk on that state.
\<close>

theorem te_inst_update_format1:
  assumes "format te = 1"
    and "\<not> start_of_trace d"
    and "(branches d = 0 \<and> branch_map d = 0) \<or> (branches d = 1 \<and> branch_map d AND NOT 1 = 0)"
  shows "\<exists>d'. te_inst_update d te = Inr d' \<and>
           te_process_te_inst n H d te = follow_execution_path n H d' (address d') te \<and>
           stop_at_last_branch d' = (te_inst_t.branches te = 0) \<and>
           branch_map d' = branch_map d OR push_bit (branches d) (te_inst_t.branch_map te) \<and>
           branches d' = branches d +
             (if te_inst_t.branches te = 0 then 31 else te_inst_t.branches te)"
  using assms
  by (auto simp: te_inst_update_def te_process_te_inst_def Let_def)

theorem te_inst_update_format1_witness:
  "(\<exists>d'. te_inst_update demo_state demo_format1 = Inr d' \<and>
      te_process_te_inst 0 demo_host demo_state demo_format1 =
        follow_execution_path 0 demo_host d' (address d') demo_format1 \<and>
      \<not> stop_at_last_branch d' \<and> branch_map d' = 3 \<and> branches d' = 1) \<and>
   (\<exists>d'. te_inst_update (demo_state\<lparr>branches := 1, branch_map := 1\<rparr>)
             (demo_format1\<lparr>te_inst_t.branches := 0\<rparr>) = Inr d' \<and>
      stop_at_last_branch d' \<and> branch_map d' = 7 \<and> branches d' = 32)"
  using te_inst_update_format1 [of demo_format1 demo_state 0 demo_host]
    te_inst_update_format1 [of "demo_format1\<lparr>te_inst_t.branches := 0\<rparr>"
      "demo_state\<lparr>branches := 1, branch_map := 1\<rparr>" 0 demo_host]
  by (simp add: demo_defs demo_format1_def) blast

subsection \<open>Return stack: push\<close>

lemma shift_down_eq:
  "shift_down i n rs = (\<lambda>k. if i \<le> k \<and> k < n then rs (Suc k) else rs k)"
proof (induction i n rs rule: shift_down.induct)
  case (1 i n rs)
  show ?case
  proof (cases "i < n")
    case True
    have "shift_down i n rs = shift_down (Suc i) n (rs(i := rs (Suc i)))"
      using True by (subst shift_down.simps) simp
    also have "\<dots> = (\<lambda>k. if Suc i \<le> k \<and> k < n then (rs(i := rs (Suc i))) (Suc k)
                         else (rs(i := rs (Suc i))) k)"
      by (rule 1 [OF True])
    also have "\<dots> = (\<lambda>k. if i \<le> k \<and> k < n then rs (Suc k) else rs k)"
      using True by (auto simp: fun_eq_iff)
    finally show ?thesis .
  next
    case False
    then show ?thesis
      by (subst shift_down.simps) (auto simp: fun_eq_iff)
  qed
qed

lemma get_instr_stack_update:
  "get_instr H (d\<lparr>call_counter := c, return_stack := r\<rparr>) a i =
     (case get_instr H d a i of Inl e \<Rightarrow> Inl e
      | Inr (d', i') \<Rightarrow> Inr (d'\<lparr>call_counter := c, return_stack := r\<rparr>, i'))"
  by (simp add: get_instr_def Let_def split: prod.splits)

lemma push_return_stack_not_full:
  assumes "call_counter d < 2 ^ (call_counter_width + 2)"
    and "get_instr H d a sentinel_instr = Inr (dc, i)"
  shows "push_return_stack H d a =
     Inr (dc\<lparr>return_stack := (return_stack d)(call_counter d := a + of_nat (instr_length i)),
             call_counter := call_counter d + 1\<rparr>)"
  using assms get_instr_fields(10,11) [OF assms(2)]
  by (simp add: push_return_stack_def call_counter_width_def TE_MAX_CALL_DEPTH_def
      instruction_size_def Let_def)

lemma push_return_stack_full:
  assumes "call_counter d = 2 ^ (call_counter_width + 2)"
    and "get_instr H d a sentinel_instr = Inr (dc, i)"
  shows "push_return_stack H d a =
     Inr (dc\<lparr>return_stack :=
               (\<lambda>k. if k < call_counter d - 1 then return_stack d (Suc k) else return_stack d k)
                 (call_counter d - 1 := a + of_nat (instr_length i)),
             call_counter := call_counter d\<rparr>)"
  using assms get_instr_fields(10,11) [OF assms(2)]
  by (simp add: push_return_stack_def call_counter_width_def TE_MAX_CALL_DEPTH_def
      instruction_size_def Let_def get_instr_stack_update shift_down_eq)

lemma stack_contents_not_full:
  "stack_contents (d\<lparr>return_stack := (return_stack d0)(call_counter d0 := l),
                     call_counter := call_counter d0 + 1\<rparr>) = stack_contents d0 @ [l]"
  by (simp add: stack_contents_def)

lemma stack_contents_full:
  assumes "0 < call_counter d0"
  shows "stack_contents (d\<lparr>return_stack :=
             (\<lambda>k. if k < call_counter d0 - 1 then return_stack d0 (Suc k) else return_stack d0 k)
               (call_counter d0 - 1 := l),
           call_counter := call_counter d0\<rparr>) = tl (stack_contents d0) @ [l]"
proof -
  obtain m where m: "call_counter d0 = Suc m"
    using assms by (cases "call_counter d0") auto
  have "map (return_stack d0) [0..<Suc m] = return_stack d0 0 # map (return_stack d0 \<circ> Suc) [0..<m]"
    by (simp only: map_upt_Suc) (simp add: comp_def)
  then show ?thesis
    by (simp add: stack_contents_def m comp_def)
qed

lemma push_return_stack_step:
  assumes "call_counter d \<le> 2 ^ (call_counter_width + 2)"
    and "get_instr H d call_pc sentinel_instr = Inr (dc, i)"
  shows "\<exists>d'. push_return_stack H d call_pc = Inr d' \<and>
     (call_counter d < 2 ^ (call_counter_width + 2) \<longrightarrow>
        return_stack d' = (return_stack d)(call_counter d := call_pc + of_nat (instr_length i)) \<and>
        call_counter d' = call_counter d + 1 \<and>
        stack_contents d' = stack_contents d @ [call_pc + of_nat (instr_length i)]) \<and>
     (call_counter d = 2 ^ (call_counter_width + 2) \<longrightarrow>
        (\<forall>k < call_counter d - 1. return_stack d' k = return_stack d (k + 1)) \<and>
        return_stack d' (call_counter d - 1) = call_pc + of_nat (instr_length i) \<and>
        call_counter d' = call_counter d \<and>
        stack_contents d' = tl (stack_contents d) @ [call_pc + of_nat (instr_length i)])"
proof (cases "call_counter d = 2 ^ (call_counter_width + 2)")
  case True
  let ?l = "call_pc + of_nat (instr_length i)"
  let ?D = "dc\<lparr>return_stack :=
               (\<lambda>k. if k < call_counter d - 1 then return_stack d (Suc k) else return_stack d k)
                 (call_counter d - 1 := ?l),
             call_counter := call_counter d\<rparr>"
  have pos: "0 < call_counter d"
    using True by simp
  have p: "push_return_stack H d call_pc = Inr ?D"
    by (rule push_return_stack_full [OF True assms(2)])
  have n: "\<not> call_counter d < 2 ^ (call_counter_width + 2)"
    using True by simp
  have sh: "\<forall>k < call_counter d - 1. return_stack ?D k = return_stack d (k + 1)"
    by simp
  have top: "return_stack ?D (call_counter d - 1) = ?l"
    by simp
  have cc: "call_counter ?D = call_counter d"
    by simp
  have sc: "stack_contents ?D = tl (stack_contents d) @ [?l]"
    by (rule stack_contents_full [OF pos])
  show ?thesis
    using p n sh top cc sc by blast
next
  case False
  let ?l = "call_pc + of_nat (instr_length i)"
  let ?D = "dc\<lparr>return_stack := (return_stack d)(call_counter d := ?l),
             call_counter := call_counter d + 1\<rparr>"
  have lt: "call_counter d < 2 ^ (call_counter_width + 2)"
    using False assms(1) by simp
  have p: "push_return_stack H d call_pc = Inr ?D"
    by (rule push_return_stack_not_full [OF lt assms(2)])
  have rs: "return_stack ?D = (return_stack d)(call_counter d := ?l)"
    by simp
  have cc: "call_counter ?D = call_counter d + 1"
    by simp
  have sc: "stack_contents ?D = stack_contents d @ [?l]"
    by (rule stack_contents_not_full)
  show ?thesis
    using p False rs cc sc by blast
qed

lemma push_all_contents:
  assumes "push_all H d as = Inr (d', links)"
    and "call_counter d \<le> 2 ^ (call_counter_width + 2)"
  shows "call_counter d' \<le> 2 ^ (call_counter_width + 2) \<and>
         stack_contents d' =
           drop (length (stack_contents d @ links) - 2 ^ (call_counter_width + 2))
             (stack_contents d @ links)"
  using assms
proof (induction as arbitrary: d d' links)
  case Nil
  then show ?case by (simp add: stack_contents_def)
next
  case (Cons a as)
  from Cons.prems(1) obtain dc i d1 d2 ls where
    g: "get_instr H d a sentinel_instr = Inr (dc, i)" and
    p: "push_return_stack H d a = Inr d1" and
    r: "push_all H d1 as = Inr (d2, ls)" and
    e: "d' = d2" "links = (a + of_nat (instr_length i)) # ls"
    by (auto simp: and_then_eq_Inr instruction_size_def)
  let ?l = "a + of_nat (instr_length i)"
  let ?cap = "(2::nat) ^ (call_counter_width + 2)"
  from push_return_stack_step [OF Cons.prems(2) g] p
  have s: "call_counter d1 \<le> ?cap"
    and c: "stack_contents d1 = (if call_counter d = ?cap then tl (stack_contents d) else stack_contents d) @ [?l]"
    using Cons.prems(2) by auto
  have len: "length (stack_contents d) = call_counter d"
    by (simp add: stack_contents_def)
  from Cons.IH [OF r s]
  have ih: "call_counter d2 \<le> ?cap"
    "stack_contents d2 = drop (length (stack_contents d1 @ ls) - ?cap) (stack_contents d1 @ ls)"
    by auto
  show ?case
  proof (cases "call_counter d = ?cap")
    case True
    then obtain x xs where xs: "stack_contents d = x # xs"
      using len by (cases "stack_contents d") auto
    have lx: "length xs + 1 = ?cap"
      using len True xs by simp
    have "length (stack_contents d @ links) - ?cap = Suc (length ls)"
      using lx by (simp add: xs e)
    moreover have "length (stack_contents d1 @ ls) - ?cap = length ls"
      using lx by (simp add: c True xs)
    ultimately show ?thesis
      using ih by (simp add: e c True xs)
  next
    case False
    then show ?thesis
      using ih by (simp add: e c)
  qed
qed

lemma push_all_length:
  "push_all H d as = Inr (d', links) \<Longrightarrow> length links = length as"
  by (induction as arbitrary: d d' links) (auto simp: and_then_eq_Inr)

lemma length_stack_contents: "length (stack_contents d) = call_counter d"
  by (simp add: stack_contents_def)

text \<open>
  C5. push_return_stack, for a call at call_pc whose instruction can be fetched and a
  stack within its capacity 2^(call_counter_width+2): the link is call_pc plus the
  length of the instruction at call_pc; below capacity it is stored at index
  call_counter and call_counter grows by one; at capacity element 0 is dropped, every
  other element moves down by one index and the link becomes the last element. After
  any sequence of calls the stack holds the last 2^(call_counter_width+2) of the links
  it held before followed by the pushed links, in order.
\<close>

theorem push_return_stack_fifo:
  "(call_counter d \<le> 2 ^ (call_counter_width + 2) \<and>
    get_instr H d call_pc sentinel_instr = Inr (dc, i) \<longrightarrow>
      (\<exists>d'. push_return_stack H d call_pc = Inr d' \<and>
         (call_counter d < 2 ^ (call_counter_width + 2) \<longrightarrow>
            return_stack d' = (return_stack d)(call_counter d := call_pc + of_nat (instr_length i)) \<and>
            call_counter d' = call_counter d + 1 \<and>
            stack_contents d' = stack_contents d @ [call_pc + of_nat (instr_length i)]) \<and>
         (call_counter d = 2 ^ (call_counter_width + 2) \<longrightarrow>
            (\<forall>k < call_counter d - 1. return_stack d' k = return_stack d (k + 1)) \<and>
            return_stack d' (call_counter d - 1) = call_pc + of_nat (instr_length i) \<and>
            call_counter d' = call_counter d \<and>
            stack_contents d' = tl (stack_contents d) @ [call_pc + of_nat (instr_length i)]))) \<and>
   (call_counter d \<le> 2 ^ (call_counter_width + 2) \<and> push_all H d as = Inr (dn, links) \<longrightarrow>
      call_counter dn \<le> 2 ^ (call_counter_width + 2) \<and>
      length links = length as \<and>
      stack_contents dn =
        drop (length (stack_contents d @ links) - 2 ^ (call_counter_width + 2))
          (stack_contents d @ links))"
  using push_return_stack_step [of d H call_pc dc i] push_all_contents [of H d as dn links]
    push_all_length [of H d as dn links]
  by blast

theorem push_return_stack_fifo_witness:
  "(\<exists>d'. push_return_stack demo_host (demo_stack 3) 0x1008 = Inr d' \<and>
      return_stack d' = of_nat (3 := 0x100c) \<and> call_counter d' = 4 \<and>
      stack_contents d' = stack_contents (demo_stack 3) @ [0x100c]) \<and>
   (\<exists>d'. push_return_stack demo_host (demo_stack 512) 0x1008 = Inr d' \<and>
      (\<forall>k < 511. return_stack d' k = of_nat (k + 1)) \<and> return_stack d' 511 = 0x100c \<and>
      call_counter d' = 512 \<and>
      stack_contents d' = tl (stack_contents (demo_stack 512)) @ [0x100c]) \<and>
   (\<exists>dn. push_all demo_host (demo_stack 511) [0x1008, 0x1000] = Inr (dn, [0x100c, 0x1004]) \<and>
      call_counter dn = 512 \<and>
      stack_contents dn = drop 1 (stack_contents (demo_stack 511) @ [0x100c, 0x1004]))"
proof -
  have g: "get_instr demo_host (demo_stack n) 0x1008 sentinel_instr =
     Inr (demo_stack n\<lparr>num_gets := 1, decoded_cache := (\<lambda>_. zero_instr)(4 := demo_instr 0x1008)\<rparr>,
          demo_instr 0x1008)" for n
    by (simp add: demo_stack_def demo_defs get_instr_def Let_def)
  have l: "instr_length (demo_instr 0x1008) = 4"
    by (simp add: demo_defs)
  have f: "call_counter (demo_stack n) = n" "return_stack (demo_stack n) = of_nat" for n
    by (simp_all add: demo_stack_def)
  obtain dn where p: "push_all demo_host (demo_stack 511) [0x1008, 0x1000] = Inr (dn, [0x100c, 0x1004])"
    and c: "call_counter dn = 512"
    by (simp add: demo_stack_def demo_defs push_return_stack_def get_instr_def
        call_counter_width_def TE_MAX_CALL_DEPTH_def instruction_size_def shift_down_eq Let_def)
  have a: "\<exists>d'. push_return_stack demo_host (demo_stack 3) 0x1008 = Inr d' \<and>
      return_stack d' = of_nat (3 := 0x100c) \<and> call_counter d' = 4 \<and>
      stack_contents d' = stack_contents (demo_stack 3) @ [0x100c]"
    using push_return_stack_fifo [where d = "demo_stack 3" and H = demo_host and call_pc = "0x1008"
        and dc = "demo_stack 3\<lparr>num_gets := 1,
          decoded_cache := (\<lambda>_. zero_instr)(4 := demo_instr 0x1008)\<rparr>"
        and i = "demo_instr 0x1008"]
    by (simp add: call_counter_width_def g l f)
  have b: "\<exists>d'. push_return_stack demo_host (demo_stack 512) 0x1008 = Inr d' \<and>
      (\<forall>k < 511. return_stack d' k = of_nat (k + 1)) \<and> return_stack d' 511 = 0x100c \<and>
      call_counter d' = 512 \<and>
      stack_contents d' = tl (stack_contents (demo_stack 512)) @ [0x100c]"
    using push_return_stack_fifo [where d = "demo_stack 512" and H = demo_host and call_pc = "0x1008"
        and dc = "demo_stack 512\<lparr>num_gets := 1,
          decoded_cache := (\<lambda>_. zero_instr)(4 := demo_instr 0x1008)\<rparr>"
        and i = "demo_instr 0x1008"]
    by (simp add: call_counter_width_def g l f)
  have "stack_contents dn = drop 1 (stack_contents (demo_stack 511) @ [0x100c, 0x1004])"
    using push_return_stack_fifo [where d = "demo_stack 511" and H = demo_host
        and as = "[0x1008, 0x1000]" and dn = dn and links = "[0x100c, 0x1004]"]
    by (simp add: call_counter_width_def p f length_stack_contents del: push_all.simps)
  then show ?thesis
    using a b p c by blast
qed

subsection \<open>One step: next_pc\<close>


















end
